theory Spec2Isabelle
  imports Main "HOL-Library.Char_ord" "HOL-Library.List_Lexorder"
begin

section \<open>Data model of create\_tsv\_from\_wmt24\_esa.py\<close>

text \<open>
  A span bound is decoded from JSON and is either an integer or a string (the sentinel
  \<open>''missing''\<close> or any other string). Python's \<open>isinstance(v, int)\<close> is
  \<open>is_int\<close>, \<open>isinstance(v, str)\<close> is \<open>is_str\<close>. Strings are lists of
  characters; \<open>len\<close> is \<open>length\<close>.
\<close>

datatype pyval = PInt int | PStr string

fun is_int :: "pyval \<Rightarrow> bool" where
  "is_int (PInt i) = True"
| "is_int (PStr s) = False"

fun is_str :: "pyval \<Rightarrow> bool" where
  "is_str (PInt i) = False"
| "is_str (PStr s) = True"

datatype error = TypeError | AssertionError | ValueError | IndexError

text \<open>
  \<open>a > b\<close> of Python 3: integers compare by value, strings lexicographically, and an
  integer against a string raises TypeError.
\<close>

fun py_gt :: "pyval \<Rightarrow> pyval \<Rightarrow> error + bool" where
  "py_gt (PInt a) (PInt b) = Inr (a > b)"
| "py_gt (PStr a) (PStr b) = Inr (a > b)"
| "py_gt (PInt a) (PStr b) = Inl TypeError"
| "py_gt (PStr a) (PInt b) = Inl TypeError"

text \<open>\<open>a == b\<close> of Python: never raises, an integer never equals a string.\<close>

fun py_eq :: "pyval \<Rightarrow> pyval \<Rightarrow> bool" where
  "py_eq (PInt a) (PInt b) = (a = b)"
| "py_eq (PStr a) (PStr b) = (a = b)"
| "py_eq (PInt a) (PStr b) = False"
| "py_eq (PStr a) (PInt b) = False"

record span =
  start_i :: pyval
  end_i :: pyval
  severity :: string

section \<open>assert\_span\_type, correct\_span, is\_invalid\_span\<close>

text \<open>Lines 20-27: True when all three assertions pass, otherwise AssertionError is raised.\<close>

definition assert_span_type :: "span \<Rightarrow> bool" where
  "assert_span_type esa_span =
     ((is_int (start_i esa_span) \<or>
         (start_i esa_span = PStr ''missing'' \<and> end_i esa_span = PStr ''missing'')) \<and>
      (is_int (end_i esa_span) \<or>
         (end_i esa_span = PStr ''missing'' \<and> start_i esa_span = PStr ''missing'')) \<and>
      severity esa_span \<in> set [''major'', ''minor'', ''undecided''])"

text \<open>
  Lines 30-49 as a function of the span's value. The comparison of line 39 is the only
  operation that can raise.
\<close>

definition correct_span :: "span \<Rightarrow> string \<Rightarrow> error + span" where
  "correct_span error_span hypothesis =
     (let s1 = (if severity error_span = ''critical''
                then error_span\<lparr>severity := ''major''\<rparr> else error_span);
          s2 = (case (start_i s1, end_i s1) of
                  (PInt a, PInt b) \<Rightarrow>
                    s1\<lparr>start_i := PInt (min (max 0 a) (int (length hypothesis))),
                       end_i := PInt (min (max 0 b) (int (length hypothesis)))\<rparr>
                | _ \<Rightarrow> s1)
      in case py_gt (start_i s2) (end_i s2) of
           Inl e \<Rightarrow> Inl e
         | Inr gt \<Rightarrow>
             (let s3 = (if gt then s2\<lparr>start_i := end_i s2, end_i := start_i s2\<rparr> else s2);
                  s4 = (if py_eq (start_i s3) (end_i s3)
                        then s3\<lparr>start_i := PStr ''missing'', end_i := PStr ''missing''\<rparr>
                        else s3)
              in Inr s4))"

text \<open>
  The same lines on a store of span objects, addressed by their index: \<open>copy.deepcopy\<close>
  allocates a new object, the local name is rebound to it, and every assignment of lines
  33-47 writes to the object the local name refers to. The result is the returned address
  (or the error raised) and the store.
\<close>

type_synonym heap = "span list"

definition deepcopy :: "heap \<Rightarrow> nat \<Rightarrow> nat \<times> heap" where
  "deepcopy hp a = (length hp, hp @ [hp ! a])"

definition set_severity :: "heap \<Rightarrow> nat \<Rightarrow> string \<Rightarrow> heap" where
  "set_severity hp c v = hp[c := (hp ! c)\<lparr>severity := v\<rparr>]"

definition set_start_i :: "heap \<Rightarrow> nat \<Rightarrow> pyval \<Rightarrow> heap" where
  "set_start_i hp c v = hp[c := (hp ! c)\<lparr>start_i := v\<rparr>]"

definition set_end_i :: "heap \<Rightarrow> nat \<Rightarrow> pyval \<Rightarrow> heap" where
  "set_end_i hp c v = hp[c := (hp ! c)\<lparr>end_i := v\<rparr>]"

definition clamp_bound :: "pyval \<Rightarrow> string \<Rightarrow> pyval" where
  "clamp_bound v hypothesis =
     (case v of PInt a \<Rightarrow> PInt (min (max 0 a) (int (length hypothesis))) | PStr s \<Rightarrow> PStr s)"

definition correct_span_heap :: "heap \<Rightarrow> nat \<Rightarrow> string \<Rightarrow> (error + nat) \<times> heap" where
  "correct_span_heap hp a hypothesis =
     (let (c, h0) = deepcopy hp a;
          h1 = (if severity (h0 ! c) = ''critical'' then set_severity h0 c ''major'' else h0);
          h2 = (if is_int (start_i (h1 ! c)) \<and> is_int (end_i (h1 ! c))
                then (let h' = set_start_i h1 c (clamp_bound (start_i (h1 ! c)) hypothesis)
                      in set_end_i h' c (clamp_bound (end_i (h' ! c)) hypothesis))
                else h1)
      in case py_gt (start_i (h2 ! c)) (end_i (h2 ! c)) of
           Inl e \<Rightarrow> (Inl e, h2)
         | Inr gt \<Rightarrow>
             (let h3 = (if gt
                        then (let s = end_i (h2 ! c); e = start_i (h2 ! c)
                              in set_end_i (set_start_i h2 c s) c e)
                        else h2);
                  h4 = (if py_eq (start_i (h3 ! c)) (end_i (h3 ! c))
                        then set_end_i (set_start_i h3 c (PStr ''missing'')) c (PStr ''missing'')
                        else h3)
              in (Inr c, h4)))"

text \<open>Lines 52-68.\<close>

definition is_invalid_span :: "span \<Rightarrow> string \<Rightarrow> bool" where
  "is_invalid_span error_span hypothesis =
     (let start = start_i error_span; end = end_i error_span; sev = severity error_span
      in if is_str start \<and> start \<noteq> PStr ''missing'' then True
         else if is_str end \<and> end \<noteq> PStr ''missing'' then True
         else if is_int start \<and>
                 (case start of PInt i \<Rightarrow> i < 0 \<or> int (length hypothesis) < i | _ \<Rightarrow> False)
           then True
         else if is_int end \<and>
                 (case end of PInt i \<Rightarrow> i < 0 \<or> int (length hypothesis) < i | _ \<Rightarrow> False)
           then True
         else if (is_int start \<and> is_int end) \<and>
                 (case (start, end) of (PInt i, PInt j) \<Rightarrow> i > j | _ \<Rightarrow> False)
           then True
         else if sev \<notin> set [''major'', ''minor'', ''critical''] then True
         else False)"

text \<open>
  The classification of section 4.2 of the specification, clause by clause: a bound is a
  string other than the sentinel; an integer bound lies outside \<open>[0, length hypothesis]\<close>;
  both bounds are integers with start above end; the severity is not major, minor or
  critical.
\<close>

definition bound_bad_string :: "pyval \<Rightarrow> bool" where
  "bound_bad_string v = (case v of PStr s \<Rightarrow> s \<noteq> ''missing'' | PInt i \<Rightarrow> False)"

definition bound_out_of_range :: "pyval \<Rightarrow> string \<Rightarrow> bool" where
  "bound_out_of_range v hypothesis =
     (case v of PInt i \<Rightarrow> i < 0 \<or> int (length hypothesis) < i | PStr s \<Rightarrow> False)"

definition bounds_reversed :: "pyval \<Rightarrow> pyval \<Rightarrow> bool" where
  "bounds_reversed v w = (case (v, w) of (PInt i, PInt j) \<Rightarrow> j < i | _ \<Rightarrow> False)"

definition spec_invalid :: "span \<Rightarrow> string \<Rightarrow> bool" where
  "spec_invalid sp hypothesis =
     (bound_bad_string (start_i sp) \<or> bound_bad_string (end_i sp) \<or>
      bound_out_of_range (start_i sp) hypothesis \<or> bound_out_of_range (end_i sp) hypothesis \<or>
      bounds_reversed (start_i sp) (end_i sp) \<or>
      severity sp \<notin> {''major'', ''minor'', ''critical''})"


text \<open>The rewrite of lines 32-33 on the severity alone.\<close>

definition norm_sev :: "string \<Rightarrow> string" where
  "norm_sev v = (if v = ''critical'' then ''major'' else v)"

section \<open>Strings: str of an integer, split and join\<close>

text \<open>
  The f-strings of lines 111, 166 and 167 format a value with \<open>str\<close>: an integer in
  decimal, with a leading minus sign when negative, a string as itself.
\<close>

definition digit_char :: "nat \<Rightarrow> char" where
  "digit_char n = ''0123456789'' ! (n mod 10)"

function str_nat :: "nat \<Rightarrow> string" where
  "str_nat n = (if n < 10 then [digit_char n] else str_nat (n div 10) @ [digit_char (n mod 10)])"
  by pat_completeness auto
termination
  by (relation "measure id") auto

declare str_nat.simps [simp del]

definition str_int :: "int \<Rightarrow> string" where
  "str_int i = (if i < 0 then CHR ''-'' # str_nat (nat (- i)) else str_nat (nat i))"

fun py_str :: "pyval \<Rightarrow> string" where
  "py_str (PInt i) = str_int i"
| "py_str (PStr s) = s"

text \<open>\<open>s.split(c)\<close> for a one-character separator: the empty string splits into \<open>['''']\<close>.\<close>

fun split_on :: "char \<Rightarrow> string \<Rightarrow> string list" where
  "split_on c [] = [[]]"
| "split_on c (x # xs) =
     (if x = c then [] # split_on c xs
      else (case split_on c xs of w # ws \<Rightarrow> (x # w) # ws | [] \<Rightarrow> [[x]]))"

text \<open>\<open>sep.join(xs)\<close>.\<close>

fun join :: "string \<Rightarrow> string list \<Rightarrow> string" where
  "join sep [] = []"
| "join sep [x] = x"
| "join sep (x # y # ys) = x @ sep @ join sep (y # ys)"

section \<open>Records, rows and counters\<close>

text \<open>
  One decoded line of the input file (the fields read by \<open>main\<close>), one entry of the
  reference corpus, and one row of the output table (a row is the fourteen column values
  that lines 179-193 append together; the column \<open>doc_id\<close> is the field \<open>row_doc_id\<close>,
  the column \<open>method\<close> the field \<open>method_name\<close>).
\<close>

record datum =
  src :: string
  tgt :: string
  langs :: string
  doc_id :: pyval
  line_id :: pyval
  system :: pyval
  domain :: string
  esa_spans :: "span list"

record ref_entry =
  source :: string
  target :: string
  is_bad_source :: bool

record row =
  row_doc_id :: pyval
  segment_id :: pyval
  source_lang :: string
  target_lang :: string
  set_id :: string
  system_id :: pyval
  source_segment :: string
  hypothesis_segment :: string
  reference_segment :: string
  domain_name :: string
  method_name :: string
  start_indices :: string
  end_indices :: string
  error_types :: string

text \<open>A \<open>Counter\<close>: every key not yet counted reads as 0; \<open>c[k] += n\<close> is \<open>incr c k n\<close>.\<close>

type_synonym counter = "string \<Rightarrow> int"

definition incr :: "counter \<Rightarrow> string \<Rightarrow> int \<Rightarrow> counter" where
  "incr c k n = c(k := c k + n)"

text \<open>
  A \<open>defaultdict\<close> keeps its keys in insertion order, so it is an association list.
  \<open>setdefault_apply k f dflt\<close> is an in-place change \<open>f\<close> of the value at \<open>k\<close>, the value
  being created as \<open>dflt\<close> at the end of the dictionary when \<open>k\<close> is new.
\<close>

type_synonym 'v odict = "(string \<times> 'v) list"

fun setdefault_apply :: "string \<Rightarrow> ('v \<Rightarrow> 'v) \<Rightarrow> 'v \<Rightarrow> 'v odict \<Rightarrow> 'v odict" where
  "setdefault_apply k f dflt [] = [(k, f dflt)]"
| "setdefault_apply k f dflt ((k', v) # kvs) =
     (if k' = k then (k', f v) # kvs else (k', v) # setdefault_apply k f dflt kvs)"

text \<open>Line 111.\<close>

definition signature :: "datum \<Rightarrow> string" where
  "signature d = py_str (doc_id d) @ ''-'' @ py_str (line_id d) @ ''-'' @ py_str (system d)"

text \<open>Lines 82-89.\<close>

definition langs_to_wmt24pp_code :: "(string \<times> string) list" where
  "langs_to_wmt24pp_code =
     [(''en-cs'', ''en-cs_CZ''), (''en-ja'', ''en-ja_JP''), (''en-zh'', ''en-zh_CN''),
      (''en-is'', ''en-is_IS''), (''en-uk'', ''en-uk_UA''), (''en-ru'', ''en-ru_RU'')]"

section \<open>main\<close>

text \<open>Line 112: \<open>langs_to_data[langs][signature].append(datum)\<close>.\<close>

definition add_datum :: "datum \<Rightarrow> datum list odict odict \<Rightarrow> datum list odict odict" where
  "add_datum d ltd =
     setdefault_apply (langs d) (setdefault_apply (signature d) (\<lambda>ds. ds @ [d]) []) [] ltd"

text \<open>
  Lines 105-112, over the decoded lines of the input file. The assertion of line 106
  comes before the test of line 107.
\<close>

fun ingest ::
  "datum list \<Rightarrow> counter \<Rightarrow> datum list odict odict \<Rightarrow> error + (counter \<times> datum list odict odict)"
where
  "ingest [] log_counter langs_to_data = Inr (log_counter, langs_to_data)"
| "ingest (d # rest) log_counter langs_to_data =
     (if \<not> length (src d) > 0 then Inl AssertionError
      else if length (tgt d) = 0
        then ingest rest (incr log_counter ''target segment is empty'' 1) langs_to_data
      else ingest rest log_counter (add_datum d langs_to_data))"

text \<open>Lines 114-116.\<close>

fun valid_signatures :: "datum list odict odict \<Rightarrow> counter \<Rightarrow> counter" where
  "valid_signatures [] c = c"
| "valid_signatures ((l, sigs) # rest) c = valid_signatures rest (c(l := int (length sigs)))"

text \<open>Lines 126-130, over the entries of the reference corpus.\<close>

fun build_src_to_tgt :: "ref_entry list \<Rightarrow> (string \<rightharpoonup> string) \<Rightarrow> (string \<rightharpoonup> string)" where
  "build_src_to_tgt [] m = m"
| "build_src_to_tgt (e # es) m =
     (if is_bad_source e then build_src_to_tgt es m
      else build_src_to_tgt es (m(source e \<mapsto> target e)))"

text \<open>The local variables of lines 139-144.\<close>

record span_acc =
  acc_start_indices :: "string list"
  acc_end_indices :: "string list"
  acc_error_types :: "string list"
  esa_counter :: counter
  has_invalid_span :: bool

definition init_acc :: span_acc where
  "init_acc = \<lparr>acc_start_indices = [], acc_end_indices = [], acc_error_types = [],
               esa_counter = (\<lambda>k. 0), has_invalid_span = False\<rparr>"

text \<open>
  Lines 145-168. The assertion of line 149 comes first; an invalid span under filtering
  ends the loop (line 158); otherwise the raw bounds and the raw severity are appended.
\<close>

fun span_loop :: "bool \<Rightarrow> string \<Rightarrow> span list \<Rightarrow> span_acc \<Rightarrow> error + span_acc" where
  "span_loop flt hyp [] acc = Inr acc"
| "span_loop flt hyp (esa_span # rest) acc =
     (if \<not> assert_span_type esa_span then Inl AssertionError
      else if flt \<and> is_invalid_span esa_span hyp then Inr (acc\<lparr>has_invalid_span := True\<rparr>)
      else span_loop flt hyp rest
             (acc\<lparr>esa_counter :=
                    (if py_eq (start_i esa_span) (end_i esa_span)
                     then incr (esa_counter acc) ''missing'' 1
                     else incr (esa_counter acc) (severity esa_span) 1),
                  acc_start_indices := acc_start_indices acc @ [py_str (start_i esa_span)],
                  acc_end_indices := acc_end_indices acc @ [py_str (end_i esa_span)],
                  acc_error_types := acc_error_types acc @ [severity esa_span]\<rparr>))"

text \<open>
  What \<open>main\<close> mutates: the two counters, the rows collected so far, and the row count of
  the language pair being processed.
\<close>

record state =
  log_counter :: counter
  langs_to_statistics :: "string \<Rightarrow> counter"
  data :: "row list"
  num_langs_data :: int

definition add_stat :: "(string \<Rightarrow> counter) \<Rightarrow> string \<Rightarrow> string \<Rightarrow> int \<Rightarrow> (string \<Rightarrow> counter)" where
  "add_stat stats l k n = stats(l := incr (stats l) k n)"

text \<open>Lines 174-177.\<close>

definition pad_no_error :: "span_acc \<Rightarrow> span_acc" where
  "pad_no_error acc =
     (if length (acc_start_indices acc) = 0
      then acc\<lparr>acc_start_indices := acc_start_indices acc @ [''-1''],
              acc_end_indices := acc_end_indices acc @ [''-1''],
              acc_error_types := acc_error_types acc @ [''no-error'']\<rparr>
      else acc)"

text \<open>Lines 179-193: the fourteen columns of one row.\<close>

definition make_row :: "datum \<Rightarrow> string \<Rightarrow> string \<Rightarrow> string \<Rightarrow> span_acc \<Rightarrow> row" where
  "make_row d reference sl tgl acc =
     \<lparr>row_doc_id = doc_id d, segment_id = line_id d, source_lang = sl, target_lang = tgl,
      set_id = ''official'', system_id = system d, source_segment = src d,
      hypothesis_segment = tgt d, reference_segment = reference, domain_name = domain d,
      method_name = ''ESA'',
      start_indices = join '' '' (acc_start_indices acc),
      end_indices = join '' '' (acc_end_indices acc),
      error_types = join '' '' (acc_error_types acc)\<rparr>"

text \<open>Lines 195-200.\<close>

definition update_statistics ::
  "(string \<Rightarrow> counter) \<Rightarrow> string \<Rightarrow> string \<Rightarrow> counter \<Rightarrow> (string \<Rightarrow> counter)" where
  "update_statistics s0 l first_type c =
     (let s1 = (if first_type = ''no-error'' then add_stat s0 l ''no-error'' 1 else s0);
          s2 = add_stat s1 l ''major'' (c ''major'');
          s3 = add_stat s2 l ''minor'' (c ''minor'')
      in add_stat s3 l ''missing'' (c ''missing''))"

text \<open>
  Lines 174-204, for a record that has a reference and no invalid span. The unpacking of
  line 181 raises ValueError unless the split has two parts; \<open>error_types[0]\<close> of line 195
  raises IndexError on an empty list.
\<close>

definition emit :: "string \<Rightarrow> datum \<Rightarrow> string \<Rightarrow> span_acc \<Rightarrow> state \<Rightarrow> error + state" where
  "emit l d reference acc st =
     (let acc1 = pad_no_error acc
      in case split_on CHR ''-'' (langs d) of
           [sl, tgl] \<Rightarrow>
             (case acc_error_types acc1 of
                [] \<Rightarrow> Inl IndexError
              | first_type # _ \<Rightarrow>
                  Inr (st\<lparr>data := data st @ [make_row d reference sl tgl acc1],
                         langs_to_statistics :=
                           update_statistics (langs_to_statistics st) l first_type
                             (esa_counter acc1),
                         num_langs_data := num_langs_data st + 1\<rparr>))
         | _ \<Rightarrow> Inl ValueError)"

text \<open>
  Lines 134-204, the records of one signature: \<open>continue\<close> goes on with the rest, the
  \<open>break\<close> of line 204 ends the loop after the first emitted row.
\<close>

fun datum_loop ::
  "bool \<Rightarrow> (string \<rightharpoonup> string) \<Rightarrow> string \<Rightarrow> datum list \<Rightarrow> state \<Rightarrow> error + state"
where
  "datum_loop flt src_to_tgt l [] st = Inr st"
| "datum_loop flt src_to_tgt l (d # rest) st =
     (case src_to_tgt (src d) of
        None \<Rightarrow> datum_loop flt src_to_tgt l rest st
      | Some reference \<Rightarrow>
          (case span_loop flt (tgt d) (esa_spans d) init_acc of
             Inl e \<Rightarrow> Inl e
           | Inr acc \<Rightarrow>
               if has_invalid_span acc
               then datum_loop flt src_to_tgt l rest
                      (st\<lparr>log_counter := incr (log_counter st) ''skip_datum_with_invalid_span'' 1\<rparr>)
               else emit l d reference acc st))"

text \<open>Line 133, the signatures of one language pair in insertion order.\<close>

fun signature_loop ::
  "bool \<Rightarrow> (string \<rightharpoonup> string) \<Rightarrow> string \<Rightarrow> datum list odict \<Rightarrow> state \<Rightarrow> error + state"
where
  "signature_loop flt src_to_tgt l [] st = Inr st"
| "signature_loop flt src_to_tgt l ((sg, ds) # rest) st =
     (case datum_loop flt src_to_tgt l ds st of
        Inl e \<Rightarrow> Inl e
      | Inr st' \<Rightarrow> signature_loop flt src_to_tgt l rest st')"

text \<open>
  Lines 120-214. \<open>load_dataset\<close> is outside the program: \<open>wmt24pp code\<close> is the train
  split it returns for the corpus code.
\<close>

fun langs_loop ::
  "bool \<Rightarrow> (string \<Rightarrow> ref_entry list) \<Rightarrow> counter \<Rightarrow> datum list odict odict \<Rightarrow> state
     \<Rightarrow> error + state"
where
  "langs_loop flt wmt24pp vsc [] st = Inr st"
| "langs_loop flt wmt24pp vsc ((l, sigs) # rest) st =
     (case map_of langs_to_wmt24pp_code l of
        None \<Rightarrow> langs_loop flt wmt24pp vsc rest st
      | Some code \<Rightarrow>
          (case signature_loop flt (build_src_to_tgt (wmt24pp code) Map.empty) l sigs
                  (st\<lparr>num_langs_data := 0\<rparr>) of
             Inl e \<Rightarrow> Inl e
           | Inr st' \<Rightarrow>
               langs_loop flt wmt24pp vsc rest
                 (st'\<lparr>log_counter := incr (log_counter st') ''num_skipped_valid_signatures''
                                        (vsc l - num_langs_data st')\<rparr>)))"

text \<open>
  Lines 92-219: the result is the error raised, or the final state, whose \<open>data\<close> is the
  table written by line 219. The seed and the two paths do not reach the table.
\<close>

definition main :: "bool \<Rightarrow> (string \<Rightarrow> ref_entry list) \<Rightarrow> datum list \<Rightarrow> error + state" where
  "main filter_data_with_invalid_span wmt24pp wmt24_esa_jsonl =
     (case ingest wmt24_esa_jsonl (\<lambda>k. 0) [] of
        Inl e \<Rightarrow> Inl e
      | Inr (log_counter0, langs_to_data) \<Rightarrow>
          langs_loop filter_data_with_invalid_span wmt24pp
            (valid_signatures langs_to_data (\<lambda>k. 0)) langs_to_data
            \<lparr>log_counter = log_counter0, langs_to_statistics = (\<lambda>l k. 0), data = [],
             num_langs_data = 0\<rparr>)"

section \<open>What the pipeline selects and emits, in closed form\<close>

text \<open>
  The statistics bucket of a span (lines 161-164) and the number of spans of a bucket.
\<close>

definition bucket :: "span \<Rightarrow> string" where
  "bucket sp = (if py_eq (start_i sp) (end_i sp) then ''missing'' else severity sp)"

definition count_bucket :: "string \<Rightarrow> span list \<Rightarrow> int" where
  "count_bucket k sps = int (length (filter (\<lambda>sp. bucket sp = k) sps))"

text \<open>
  A record qualifies when its source text has a reference and, under filtering, none of
  its spans is invalid.
\<close>

definition has_invalid :: "bool \<Rightarrow> datum \<Rightarrow> bool" where
  "has_invalid flt d = (flt \<and> list_ex (\<lambda>sp. is_invalid_span sp (tgt d)) (esa_spans d))"

definition qualifies :: "bool \<Rightarrow> (string \<rightharpoonup> string) \<Rightarrow> datum \<Rightarrow> bool" where
  "qualifies flt s2t d = (s2t (src d) \<noteq> None \<and> \<not> has_invalid flt d)"

text \<open>The accumulators after a full pass over spans that all passed.\<close>

definition add_spans :: "span_acc \<Rightarrow> span list \<Rightarrow> span_acc" where
  "add_spans acc sps =
     acc\<lparr>acc_start_indices := acc_start_indices acc @ map (\<lambda>sp. py_str (start_i sp)) sps,
         acc_end_indices := acc_end_indices acc @ map (\<lambda>sp. py_str (end_i sp)) sps,
         acc_error_types := acc_error_types acc @ map severity sps,
         esa_counter := (\<lambda>k. esa_counter acc k + count_bucket k sps)\<rparr>"

text \<open>\<open>emitted s2t d r\<close>: \<open>r\<close> is the row built from the record \<open>d\<close>.\<close>

definition emitted :: "(string \<rightharpoonup> string) \<Rightarrow> datum \<Rightarrow> row \<Rightarrow> bool" where
  "emitted s2t d r =
     (case s2t (src d) of
        None \<Rightarrow> False
      | Some reference \<Rightarrow>
          (case split_on CHR ''-'' (langs d) of
             [sl, tgl] \<Rightarrow>
               list_all assert_span_type (esa_spans d) \<and>
               r = make_row d reference sl tgl (pad_no_error (add_spans init_acc (esa_spans d)))
           | _ \<Rightarrow> False))"

text \<open>What an emitted record adds to the statistics of its language pair.\<close>

definition datum_stats :: "datum \<Rightarrow> counter" where
  "datum_stats d k =
     (if k = ''no-error'' then (if esa_spans d = [] then 1 else 0)
      else if k = ''major'' \<or> k = ''minor'' \<or> k = ''missing'' then count_bucket k (esa_spans d)
      else 0)"

text \<open>
  The record selected from the list of one signature: the first that qualifies, if any;
  then over the signatures of a language pair, and over the language pairs that have a
  corpus code, each selected record paired with its language pair.
\<close>

definition select :: "bool \<Rightarrow> (string \<rightharpoonup> string) \<Rightarrow> datum list \<Rightarrow> datum list" where
  "select flt s2t ds = (case find (qualifies flt s2t) ds of None \<Rightarrow> [] | Some d \<Rightarrow> [d])"

definition src_to_tgt_of :: "(string \<Rightarrow> ref_entry list) \<Rightarrow> string \<Rightarrow> (string \<rightharpoonup> string)" where
  "src_to_tgt_of wmt24pp l =
     (case map_of langs_to_wmt24pp_code l of
        None \<Rightarrow> Map.empty
      | Some code \<Rightarrow> build_src_to_tgt (wmt24pp code) Map.empty)"

definition select_sigs :: "bool \<Rightarrow> (string \<rightharpoonup> string) \<Rightarrow> datum list odict \<Rightarrow> datum list" where
  "select_sigs flt s2t sigs = concat (map (\<lambda>(sg, ds). select flt s2t ds) sigs)"

definition select_all ::
  "bool \<Rightarrow> (string \<Rightarrow> ref_entry list) \<Rightarrow> datum list odict odict \<Rightarrow> (string \<times> datum) list" where
  "select_all flt wmt24pp ltd =
     concat (map (\<lambda>(l, sigs).
                    if map_of langs_to_wmt24pp_code l = None then []
                    else map (Pair l) (select_sigs flt (src_to_tgt_of wmt24pp l) sigs)) ltd)"

definition emitted_for :: "(string \<Rightarrow> ref_entry list) \<Rightarrow> string \<times> datum \<Rightarrow> row \<Rightarrow> bool" where
  "emitted_for wmt24pp ld r = emitted (src_to_tgt_of wmt24pp (fst ld)) (snd ld) r"

definition stats_for :: "string \<Rightarrow> string \<Rightarrow> string \<times> datum \<Rightarrow> int" where
  "stats_for L k ld = (if fst ld = L then datum_stats (snd ld) k else 0)"

text \<open>
  The invariants of the loops: from \<open>st\<close> to \<open>st'\<close> the rows of the selected records are
  appended and their statistics added.
\<close>

definition effect :: "(string \<rightharpoonup> string) \<Rightarrow> string \<Rightarrow> datum list \<Rightarrow> state \<Rightarrow> state \<Rightarrow> bool" where
  "effect s2t l sel st st' =
     ((\<exists>rs. data st' = data st @ rs \<and> list_all2 (emitted s2t) sel rs) \<and>
      (\<forall>L k. langs_to_statistics st' L k =
               langs_to_statistics st L k +
               (if L = l then sum_list (map (\<lambda>d. datum_stats d k) sel) else 0)) \<and>
      num_langs_data st' = num_langs_data st + int (length sel))"

definition effect_all ::
  "(string \<Rightarrow> ref_entry list) \<Rightarrow> (string \<times> datum) list \<Rightarrow> state \<Rightarrow> state \<Rightarrow> bool" where
  "effect_all wmt24pp sel st st' =
     ((\<exists>rs. data st' = data st @ rs \<and> list_all2 (emitted_for wmt24pp) sel rs) \<and>
      (\<forall>L k. langs_to_statistics st' L k =
               langs_to_statistics st L k + sum_list (map (stats_for L k) sel)))"

text \<open>
  The tokens of a space-joined field, and the tokens a record's spans give: one per span,
  or the sentinel alone when there is no span.
\<close>

definition tokens :: "string \<Rightarrow> string list" where
  "tokens s = split_on CHR '' '' s"

definition raw_tokens :: "(span \<Rightarrow> string) \<Rightarrow> string \<Rightarrow> span list \<Rightarrow> string list" where
  "raw_tokens f sentinel sps = (if sps = [] then [sentinel] else map f sps)"






text \<open>
  The number of spans satisfying \<open>P\<close> among the selected records of the language pair
  \<open>L\<close>, and the columns of a row that are copied from its record.
\<close>

definition count_selected_spans :: "(span \<Rightarrow> bool) \<Rightarrow> string \<Rightarrow> (string \<times> datum) list \<Rightarrow> int" where
  "count_selected_spans P L sel =
     sum_list (map (\<lambda>ld. if fst ld = L then int (length (filter P (esa_spans (snd ld)))) else 0) sel)"


text \<open>
  The relations between a selected record and its row that the claims speak of: the three
  joined fields are the raw span values; the three fields have as many tokens each; the
  row is the no-error row.
\<close>

definition carries_raw_spans :: "datum \<Rightarrow> row \<Rightarrow> bool" where
  "carries_raw_spans d r =
     (start_indices r = join '' '' (raw_tokens (\<lambda>sp. py_str (start_i sp)) ''-1'' (esa_spans d)) \<and>
      end_indices r = join '' '' (raw_tokens (\<lambda>sp. py_str (end_i sp)) ''-1'' (esa_spans d)) \<and>
      error_types r = join '' '' (raw_tokens severity ''no-error'' (esa_spans d)) \<and>
      tokens (start_indices r) = raw_tokens (\<lambda>sp. py_str (start_i sp)) ''-1'' (esa_spans d) \<and>
      tokens (end_indices r) = raw_tokens (\<lambda>sp. py_str (end_i sp)) ''-1'' (esa_spans d) \<and>
      tokens (error_types r) = raw_tokens severity ''no-error'' (esa_spans d))"

definition aligned :: "row \<Rightarrow> bool" where
  "aligned r =
     (length (tokens (start_indices r)) = length (tokens (end_indices r)) \<and>
      length (tokens (end_indices r)) = length (tokens (error_types r)))"

definition is_no_error_row :: "row \<Rightarrow> bool" where
  "is_no_error_row r =
     (start_indices r = ''-1'' \<and> end_indices r = ''-1'' \<and> error_types r = ''no-error'')"


text \<open>
  Example inputs: a reference corpus that knows the source text \<open>''hello''\<close>, and a record
  of the language pair en-cs with a given source text, target text and spans.
\<close>

definition example_refs :: "string \<Rightarrow> ref_entry list" where
  "example_refs code = [\<lparr>source = ''hello'', target = ''ahoj'', is_bad_source = False\<rparr>]"

definition example_record :: "string \<Rightarrow> string \<Rightarrow> span list \<Rightarrow> datum" where
  "example_record s t sps =
     \<lparr>src = s, tgt = t, langs = ''en-cs'', doc_id = PStr ''doc1'', line_id = PInt 12,
      system = PStr ''sysA'', domain = ''news'', esa_spans = sps\<rparr>"

section \<open>The normalizer by cases of its bounds\<close>

lemma correct_span_ints:
  assumes "start_i s = PInt a" "end_i s = PInt b"
  shows "correct_span s h =
    (let a' = min (max 0 a) (int (length h)); b' = min (max 0 b) (int (length h))
     in Inr (if a' = b'
             then s\<lparr>start_i := PStr ''missing'', end_i := PStr ''missing'',
                    severity := norm_sev (severity s)\<rparr>
             else s\<lparr>start_i := PInt (min a' b'), end_i := PInt (max a' b'),
                    severity := norm_sev (severity s)\<rparr>))"
  using assms unfolding correct_span_def norm_sev_def Let_def
  by (simp add: min_def max_def)

lemma correct_span_strs:
  assumes "start_i s = PStr a" "end_i s = PStr b"
  shows "correct_span s h =
     Inr (if a = b
          then s\<lparr>start_i := PStr ''missing'', end_i := PStr ''missing'',
                 severity := norm_sev (severity s)\<rparr>
          else s\<lparr>start_i := PStr (min a b), end_i := PStr (max a b),
                 severity := norm_sev (severity s)\<rparr>)"
  using assms unfolding correct_span_def norm_sev_def Let_def
  by (simp add: min_def max_def)

lemma correct_span_mixed:
  "is_int (start_i s) \<noteq> is_int (end_i s) \<Longrightarrow> correct_span s h = Inl TypeError"
  unfolding correct_span_def Let_def
  by (cases "start_i s"; cases "end_i s") simp_all

lemma norm_sev_idem: "norm_sev (norm_sev v) = norm_sev v"
  by (simp add: norm_sev_def)

lemma correct_span_missing_fix:
  assumes "start_i r = PStr ''missing''" "end_i r = PStr ''missing''"
    "norm_sev (severity r) = severity r"
  shows "correct_span r h = Inr r"
proof -
  have "r\<lparr>start_i := PStr ''missing'', end_i := PStr ''missing'', severity := severity r\<rparr> = r"
    using assms by (cases r) simp
  with assms show ?thesis by (simp add: correct_span_strs)
qed

lemma correct_span_ints_fix:
  assumes "start_i r = PInt lo" "end_i r = PInt hi" "0 \<le> lo" "lo < hi" "hi \<le> int (length h)"
    "norm_sev (severity r) = severity r"
  shows "correct_span r h = Inr r"
proof -
  have c: "min (max 0 lo) (int (length h)) = lo" "min (max 0 hi) (int (length h)) = hi"
    using assms by simp_all
  have m: "min lo hi = lo" "max lo hi = hi" "lo \<noteq> hi" using assms by simp_all
  have "r\<lparr>start_i := PInt lo, end_i := PInt hi, severity := severity r\<rparr> = r"
    using assms by (cases r) simp
  with assms(1,2,6) c m show ?thesis by (simp add: correct_span_ints Let_def)
qed

lemma correct_span_strs_fix:
  assumes "start_i r = PStr lo" "end_i r = PStr hi" "lo < hi"
    "norm_sev (severity r) = severity r"
  shows "correct_span r h = Inr r"
proof -
  have m: "min lo hi = lo" "max lo hi = hi" "lo \<noteq> hi" using assms by simp_all
  have "r\<lparr>start_i := PStr lo, end_i := PStr hi, severity := severity r\<rparr> = r"
    using assms by (cases r) simp
  with assms(1,2,4) m show ?thesis by (simp add: correct_span_strs)
qed

section \<open>The normalizer on the store\<close>

lemma set_severity_last: "set_severity (hp @ [x]) (length hp) v = hp @ [x\<lparr>severity := v\<rparr>]"
  by (simp add: set_severity_def)

lemma set_start_i_last: "set_start_i (hp @ [x]) (length hp) v = hp @ [x\<lparr>start_i := v\<rparr>]"
  by (simp add: set_start_i_def)

lemma set_end_i_last: "set_end_i (hp @ [x]) (length hp) v = hp @ [x\<lparr>end_i := v\<rparr>]"
  by (simp add: set_end_i_def)

lemmas heap_last = set_severity_last set_start_i_last set_end_i_last nth_append_length

lemma correct_span_heap_ints:
  assumes "start_i (hp ! a) = PInt i" "end_i (hp ! a) = PInt j"
  shows "\<exists>r. correct_span (hp ! a) h = Inr r \<and>
             correct_span_heap hp a h = (Inr (length hp), hp @ [r])"
proof -
  define i' where "i' = min (max 0 i) (int (length h))"
  define j' where "j' = min (max 0 j) (int (length h))"
  consider "j' < i'" | "i' = j'" | "i' < j'" by linarith
  then show ?thesis
  proof cases
    case 1
    then have "\<not> i' < j'" "i' \<noteq> j'" "j' \<noteq> i'" by simp_all
    with 1 assms show ?thesis
      by (cases "severity (hp ! a) = ''critical''")
         (simp_all add: correct_span_heap_def correct_span_def deepcopy_def heap_last
            clamp_bound_def Let_def i'_def[symmetric] j'_def[symmetric])
  next
    case 2
    with assms show ?thesis
      by (cases "severity (hp ! a) = ''critical''")
         (simp_all add: correct_span_heap_def correct_span_def deepcopy_def heap_last
            clamp_bound_def Let_def i'_def[symmetric] j'_def[symmetric])
  next
    case 3
    then have "\<not> j' < i'" "i' \<noteq> j'" "j' \<noteq> i'" by simp_all
    with 3 assms show ?thesis
      by (cases "severity (hp ! a) = ''critical''")
         (simp_all add: correct_span_heap_def correct_span_def deepcopy_def heap_last
            clamp_bound_def Let_def i'_def[symmetric] j'_def[symmetric])
  qed
qed

lemma correct_span_heap_strs:
  assumes "start_i (hp ! a) = PStr i" "end_i (hp ! a) = PStr j"
  shows "\<exists>r. correct_span (hp ! a) h = Inr r \<and>
             correct_span_heap hp a h = (Inr (length hp), hp @ [r])"
proof -
  consider "j < i" | "i = j" | "i < j" by (metis linorder_less_linear)
  then show ?thesis
  proof cases
    case 1
    then have "\<not> i < j" "i \<noteq> j" "j \<noteq> i" by auto
    with 1 assms show ?thesis
      by (cases "severity (hp ! a) = ''critical''")
         (simp_all add: correct_span_heap_def correct_span_def deepcopy_def heap_last Let_def)
  next
    case 2
    with assms show ?thesis
      by (cases "severity (hp ! a) = ''critical''")
         (simp_all add: correct_span_heap_def correct_span_def deepcopy_def heap_last Let_def)
  next
    case 3
    then have "\<not> j < i" "i \<noteq> j" "j \<noteq> i" by auto
    with 3 assms show ?thesis
      by (cases "severity (hp ! a) = ''critical''")
         (simp_all add: correct_span_heap_def correct_span_def deepcopy_def heap_last Let_def)
  qed
qed

section \<open>The pipeline: lemmas\<close>

lemma add_spans_Nil: "add_spans acc [] = acc"
  by (simp add: add_spans_def count_bucket_def)

lemma add_spans_Cons:
  "add_spans
     (acc\<lparr>esa_counter := incr (esa_counter acc) (bucket sp) 1,
          acc_start_indices := acc_start_indices acc @ [py_str (start_i sp)],
          acc_end_indices := acc_end_indices acc @ [py_str (end_i sp)],
          acc_error_types := acc_error_types acc @ [severity sp]\<rparr>) sps
   = add_spans acc (sp # sps)"
  by (simp add: add_spans_def count_bucket_def incr_def fun_eq_iff)

lemma span_loop_step:
  "span_loop flt hyp (sp # rest) acc =
     (if \<not> assert_span_type sp then Inl AssertionError
      else if flt \<and> is_invalid_span sp hyp then Inr (acc\<lparr>has_invalid_span := True\<rparr>)
      else span_loop flt hyp rest
             (acc\<lparr>esa_counter := incr (esa_counter acc) (bucket sp) 1,
                  acc_start_indices := acc_start_indices acc @ [py_str (start_i sp)],
                  acc_end_indices := acc_end_indices acc @ [py_str (end_i sp)],
                  acc_error_types := acc_error_types acc @ [severity sp]\<rparr>))"
  by (simp add: bucket_def)

lemma span_loop_invalid:
  "span_loop flt hyp sps acc = Inr acc' \<Longrightarrow> \<not> has_invalid_span acc \<Longrightarrow>
     has_invalid_span acc' = (flt \<and> list_ex (\<lambda>sp. is_invalid_span sp hyp) sps)"
proof (induction sps arbitrary: acc)
  case Nil
  then show ?case by simp
next
  case (Cons sp rest)
  show ?case
  proof (cases "flt \<and> is_invalid_span sp hyp")
    case True
    with Cons.prems show ?thesis by (auto simp: span_loop_step simp del: span_loop.simps split: if_splits)
  next
    case False
    with Cons.prems have
      "span_loop flt hyp rest
         (acc\<lparr>esa_counter := incr (esa_counter acc) (bucket sp) 1,
              acc_start_indices := acc_start_indices acc @ [py_str (start_i sp)],
              acc_end_indices := acc_end_indices acc @ [py_str (end_i sp)],
              acc_error_types := acc_error_types acc @ [severity sp]\<rparr>) = Inr acc'"
      by (simp add: span_loop_step del: span_loop.simps split: if_splits)
    from Cons.IH[OF this] Cons.prems(2) False show ?thesis by auto
  qed
qed

lemma span_loop_valid:
  "span_loop flt hyp sps acc = Inr acc' \<Longrightarrow> \<not> (flt \<and> list_ex (\<lambda>sp. is_invalid_span sp hyp) sps) \<Longrightarrow>
     acc' = add_spans acc sps \<and> list_all assert_span_type sps"
proof (induction sps arbitrary: acc)
  case Nil
  then show ?case by (simp add: add_spans_Nil)
next
  case (Cons sp rest)
  from Cons.prems(2) have nf: "\<not> (flt \<and> is_invalid_span sp hyp)"
    and nr: "\<not> (flt \<and> list_ex (\<lambda>sp. is_invalid_span sp hyp) rest)" by auto
  from Cons.prems(1) nf have a: "assert_span_type sp"
    by (simp add: span_loop_step del: span_loop.simps split: if_splits)
  with Cons.prems(1) nf have
      "span_loop flt hyp rest
         (acc\<lparr>esa_counter := incr (esa_counter acc) (bucket sp) 1,
              acc_start_indices := acc_start_indices acc @ [py_str (start_i sp)],
              acc_end_indices := acc_end_indices acc @ [py_str (end_i sp)],
              acc_error_types := acc_error_types acc @ [severity sp]\<rparr>) = Inr acc'"
    by (simp add: span_loop_step del: span_loop.simps split: if_splits)
  from Cons.IH[OF this nr] a show ?case by (simp add: add_spans_Cons)
qed

lemma effect_Nil: "effect s2t l [] st st"
  by (simp add: effect_def)

lemma effect_log_counter:
  "effect s2t l sel (st\<lparr>log_counter := c\<rparr>) st' = effect s2t l sel st st'"
  by (simp add: effect_def)

lemma effect_trans:
  assumes "effect s2t l sel1 st st1" "effect s2t l sel2 st1 st2"
  shows "effect s2t l (sel1 @ sel2) st st2"
proof -
  from assms(1) obtain rs1 where r1: "data st1 = data st @ rs1" "list_all2 (emitted s2t) sel1 rs1"
    by (auto simp: effect_def)
  from assms(2) obtain rs2 where r2: "data st2 = data st1 @ rs2" "list_all2 (emitted s2t) sel2 rs2"
    by (auto simp: effect_def)
  have "data st2 = data st @ (rs1 @ rs2)" using r1 r2 by simp
  moreover have "list_all2 (emitted s2t) (sel1 @ sel2) (rs1 @ rs2)"
    using r1 r2 by (simp add: list_all2_appendI)
  ultimately have d: "\<exists>rs. data st2 = data st @ rs \<and> list_all2 (emitted s2t) (sel1 @ sel2) rs"
    by blast
  have s: "\<forall>L k. langs_to_statistics st2 L k =
               langs_to_statistics st L k +
               (if L = l then sum_list (map (\<lambda>d. datum_stats d k) (sel1 @ sel2)) else 0)"
    using assms by (simp add: effect_def)
  have n: "num_langs_data st2 = num_langs_data st + int (length (sel1 @ sel2))"
    using assms by (simp add: effect_def)
  from d s n show ?thesis unfolding effect_def by blast
qed

lemma severity_not_no_error: "assert_span_type sp \<Longrightarrow> severity sp \<noteq> ''no-error''"
  by (auto simp: assert_span_type_def)

lemma update_statistics_eval:
  "update_statistics s0 l ft c L k =
     s0 L k + (if L = l then
                 (if k = ''no-error'' then (if ft = ''no-error'' then 1 else 0)
                  else if k = ''major'' \<or> k = ''minor'' \<or> k = ''missing'' then c k else 0)
               else 0)"
  by (simp add: update_statistics_def add_stat_def incr_def Let_def)

lemma pad_no_error_types:
  "acc_error_types (pad_no_error (add_spans init_acc sps)) =
     (if sps = [] then [''no-error''] else map severity sps)"
  by (simp add: pad_no_error_def add_spans_def init_acc_def)

lemma pad_no_error_counter:
  "esa_counter (pad_no_error (add_spans init_acc sps)) k = count_bucket k sps"
  by (simp add: pad_no_error_def add_spans_def init_acc_def)

lemma emit_effect:
  assumes "emit l d reference (add_spans init_acc (esa_spans d)) st = Inr st'"
    "s2t (src d) = Some reference" "list_all assert_span_type (esa_spans d)"
  shows "effect s2t l [d] st st'"
proof -
  let ?acc1 = "pad_no_error (add_spans init_acc (esa_spans d))"
  from assms(1) obtain sl tgl where sp: "split_on CHR ''-'' (langs d) = [sl, tgl]"
    by (auto simp: emit_def Let_def split: list.splits)
  obtain ft rest where ft: "acc_error_types ?acc1 = ft # rest"
    by (cases "acc_error_types ?acc1") (auto simp: pad_no_error_types split: if_splits)
  have ftv: "(ft = ''no-error'') = (esa_spans d = [])"
  proof (cases "esa_spans d")
    case Nil
    with ft show ?thesis by (simp add: pad_no_error_types)
  next
    case (Cons s ss)
    with ft have "ft = severity s" by (simp add: pad_no_error_types)
    moreover from Cons assms(3) have "assert_span_type s" by simp
    ultimately show ?thesis using Cons by (simp add: severity_not_no_error)
  qed
  from assms(1) sp ft have st':
    "st' = st\<lparr>data := data st @ [make_row d reference sl tgl ?acc1],
              langs_to_statistics :=
                update_statistics (langs_to_statistics st) l ft (esa_counter ?acc1),
              num_langs_data := num_langs_data st + 1\<rparr>"
    by (simp add: emit_def Let_def)
  have e: "emitted s2t d (make_row d reference sl tgl ?acc1)"
    using assms(2,3) sp by (simp add: emitted_def)
  have d: "\<exists>rs. data st' = data st @ rs \<and> list_all2 (emitted s2t) [d] rs"
    using st' e by simp
  have s: "\<forall>L k. langs_to_statistics st' L k =
               langs_to_statistics st L k +
               (if L = l then sum_list (map (\<lambda>d. datum_stats d k) [d]) else 0)"
    using ftv by (simp add: st' update_statistics_eval pad_no_error_counter datum_stats_def)
  have n: "num_langs_data st' = num_langs_data st + int (length [d])"
    by (simp add: st')
  from d s n show ?thesis unfolding effect_def by blast
qed

lemma datum_loop_effect:
  "datum_loop flt s2t l ds st = Inr st' \<Longrightarrow> effect s2t l (select flt s2t ds) st st'"
proof (induction ds arbitrary: st)
  case Nil
  then show ?case by (simp add: select_def effect_Nil)
next
  case (Cons d rest)
  show ?case
  proof (cases "s2t (src d)")
    case None
    then have "select flt s2t (d # rest) = select flt s2t rest"
      by (simp add: select_def qualifies_def)
    with Cons None show ?thesis by simp
  next
    case (Some reference)
    with Cons.prems obtain acc where acc: "span_loop flt (tgt d) (esa_spans d) init_acc = Inr acc"
      by (auto split: sum.splits)
    have ni: "\<not> has_invalid_span init_acc" by (simp add: init_acc_def)
    from span_loop_invalid[OF acc ni]
    have hi: "has_invalid_span acc = has_invalid flt d" by (simp add: has_invalid_def)
    show ?thesis
    proof (cases "has_invalid flt d")
      case True
      then have "select flt s2t (d # rest) = select flt s2t rest"
        by (simp add: select_def qualifies_def)
      moreover from Cons.prems Some acc hi True have
        "datum_loop flt s2t l rest
           (st\<lparr>log_counter := incr (log_counter st) ''skip_datum_with_invalid_span'' 1\<rparr>) = Inr st'"
        by simp
      from Cons.IH[OF this] have "effect s2t l (select flt s2t rest) st st'"
        by (simp add: effect_log_counter)
      ultimately show ?thesis by simp
    next
      case False
      then have sel: "select flt s2t (d # rest) = [d]"
        using Some by (simp add: select_def qualifies_def)
      from False have "\<not> (flt \<and> list_ex (\<lambda>sp. is_invalid_span sp (tgt d)) (esa_spans d))"
        by (simp add: has_invalid_def)
      from span_loop_valid[OF acc this]
      have av: "acc = add_spans init_acc (esa_spans d)" "list_all assert_span_type (esa_spans d)"
        by simp_all
      from Cons.prems Some acc hi False av have
        "emit l d reference (add_spans init_acc (esa_spans d)) st = Inr st'" by simp
      then have "effect s2t l [d] st st'"
        using Some av(2) by (rule emit_effect[where ?s2t = s2t])
      with sel show ?thesis by simp
    qed
  qed
qed

lemma signature_loop_effect:
  "signature_loop flt s2t l sigs st = Inr st' \<Longrightarrow> effect s2t l (select_sigs flt s2t sigs) st st'"
proof (induction sigs arbitrary: st)
  case Nil
  then show ?case by (simp add: select_sigs_def effect_Nil)
next
  case (Cons a rest)
  obtain sg ds where a: "a = (sg, ds)" by (cases a)
  from Cons.prems a obtain st1 where
    s1: "datum_loop flt s2t l ds st = Inr st1" and s2: "signature_loop flt s2t l rest st1 = Inr st'"
    by (auto split: sum.splits)
  from effect_trans[OF datum_loop_effect[OF s1] Cons.IH[OF s2]] a
  show ?case by (simp add: select_sigs_def)
qed

lemma effect_all_Nil: "effect_all wmt24pp [] st st"
  by (simp add: effect_all_def)

lemma effect_all_log_counter:
  "effect_all wmt24pp sel st (st'\<lparr>log_counter := c\<rparr>) = effect_all wmt24pp sel st st'"
  by (simp add: effect_all_def)

lemma effect_all_num:
  "effect_all wmt24pp sel (st\<lparr>num_langs_data := n\<rparr>) st' = effect_all wmt24pp sel st st'"
  by (simp add: effect_all_def)

lemma effect_all_trans:
  assumes "effect_all w sel1 st st1" "effect_all w sel2 st1 st2"
  shows "effect_all w (sel1 @ sel2) st st2"
proof -
  from assms(1) obtain rs1 where r1: "data st1 = data st @ rs1" "list_all2 (emitted_for w) sel1 rs1"
    by (auto simp: effect_all_def)
  from assms(2) obtain rs2 where r2: "data st2 = data st1 @ rs2" "list_all2 (emitted_for w) sel2 rs2"
    by (auto simp: effect_all_def)
  have "data st2 = data st @ (rs1 @ rs2)" using r1 r2 by simp
  moreover have "list_all2 (emitted_for w) (sel1 @ sel2) (rs1 @ rs2)"
    using r1 r2 by (simp add: list_all2_appendI)
  ultimately have d: "\<exists>rs. data st2 = data st @ rs \<and> list_all2 (emitted_for w) (sel1 @ sel2) rs"
    by blast
  have s: "\<forall>L k. langs_to_statistics st2 L k =
               langs_to_statistics st L k + sum_list (map (stats_for L k) (sel1 @ sel2))"
    using assms by (simp add: effect_all_def)
  from d s show ?thesis unfolding effect_all_def by blast
qed

lemma sum_stats_for_Pair:
  "sum_list (map (stats_for L k) (map (Pair l) sel)) =
     (if L = l then sum_list (map (\<lambda>d. datum_stats d k) sel) else 0)"
  by (induction sel) (auto simp: stats_for_def)

lemma effect_lift:
  assumes "effect (src_to_tgt_of w l) l sel st st'"
  shows "effect_all w (map (Pair l) sel) st st'"
proof -
  from assms obtain rs where r: "data st' = data st @ rs"
      "list_all2 (emitted (src_to_tgt_of w l)) sel rs"
    by (auto simp: effect_def)
  have "list_all2 (emitted_for w) (map (Pair l) sel) rs"
    using r(2) by (simp add: list_all2_map1 emitted_for_def)
  with r(1) have d: "\<exists>rs. data st' = data st @ rs \<and> list_all2 (emitted_for w) (map (Pair l) sel) rs"
    by blast
  have s: "\<forall>L k. langs_to_statistics st' L k =
               langs_to_statistics st L k + sum_list (map (stats_for L k) (map (Pair l) sel))"
    using assms by (simp add: effect_def sum_stats_for_Pair del: map_map)
  from d s show ?thesis unfolding effect_all_def by blast
qed

lemma langs_loop_effect:
  "langs_loop flt w vsc ltd st = Inr st' \<Longrightarrow> effect_all w (select_all flt w ltd) st st'"
proof (induction ltd arbitrary: st)
  case Nil
  then show ?case by (simp add: select_all_def effect_all_Nil)
next
  case (Cons a rest)
  obtain l sigs where a: "a = (l, sigs)" by (cases a)
  show ?case
  proof (cases "map_of langs_to_wmt24pp_code l")
    case None
    with Cons a show ?thesis by (simp add: select_all_def)
  next
    case (Some code)
    then have s2t: "src_to_tgt_of w l = build_src_to_tgt (w code) Map.empty"
      by (simp add: src_to_tgt_of_def)
    from Cons.prems a Some s2t obtain st1 where
      s1: "signature_loop flt (src_to_tgt_of w l) l sigs (st\<lparr>num_langs_data := 0\<rparr>) = Inr st1" and
      s2: "langs_loop flt w vsc rest
             (st1\<lparr>log_counter := incr (log_counter st1) ''num_skipped_valid_signatures''
                                    (vsc l - num_langs_data st1)\<rparr>) = Inr st'"
      by (auto split: sum.splits)
    from effect_lift[OF signature_loop_effect[OF s1]]
    have e1: "effect_all w (map (Pair l) (select_sigs flt (src_to_tgt_of w l) sigs)) st
                (st1\<lparr>log_counter := incr (log_counter st1) ''num_skipped_valid_signatures''
                                    (vsc l - num_langs_data st1)\<rparr>)"
      by (simp add: effect_all_num effect_all_log_counter)
    from effect_all_trans[OF e1 Cons.IH[OF s2]] a Some
    show ?thesis by (simp add: select_all_def)
  qed
qed

lemma main_effect:
  assumes "main flt w input = Inr out"
  shows "\<exists>lc ltd. ingest input (\<lambda>k. 0) [] = Inr (lc, ltd) \<and>
           list_all2 (emitted_for w) (select_all flt w ltd) (data out) \<and>
           (\<forall>L k. langs_to_statistics out L k = sum_list (map (stats_for L k) (select_all flt w ltd)))"
proof -
  from assms obtain lc ltd where i: "ingest input (\<lambda>k. 0) [] = Inr (lc, ltd)"
    by (auto simp: main_def split: sum.splits)
  with assms have
    "langs_loop flt w (valid_signatures ltd (\<lambda>k. 0)) ltd
       \<lparr>log_counter = lc, langs_to_statistics = (\<lambda>l k. 0), data = [], num_langs_data = 0\<rparr> = Inr out"
    by (simp add: main_def)
  from langs_loop_effect[OF this] i show ?thesis by (simp add: effect_all_def)
qed

lemma split_on_nonempty: "split_on c s \<noteq> []"
  by (induction s) (auto split: list.splits)

lemma split_on_no_sep: "c \<notin> set s \<Longrightarrow> split_on c s = [s]"
  by (induction s) auto

lemma split_on_append: "c \<notin> set a \<Longrightarrow> split_on c (a @ c # b) = a # split_on c b"
  by (induction a) auto

lemma split_on_join:
  "ts \<noteq> [] \<Longrightarrow> \<forall>t\<in>set ts. c \<notin> set t \<Longrightarrow> split_on c (join [c] ts) = ts"
proof (induction "[c]" ts rule: join.induct)
  case 1
  then show ?case by simp
next
  case (2 x)
  then show ?case by (simp add: split_on_no_sep)
next
  case (3 x y ys)
  then show ?case by (simp add: split_on_append)
qed

lemma digit_char_in: "digit_char n \<in> set ''0123456789''"
  unfolding digit_char_def by (rule nth_mem) simp

lemma digit_char_not_space: "digit_char n \<noteq> CHR '' ''"
  using digit_char_in[of n] by auto

lemma str_nat_no_space: "CHR '' '' \<notin> set (str_nat n)"
proof (induction n rule: str_nat.induct)
  case (1 n)
  show ?case
  proof (cases "n < 10")
    case True
    then show ?thesis using digit_char_not_space[of n] by (subst str_nat.simps) auto
  next
    case False
    with 1 show ?thesis using digit_char_not_space[of "n mod 10"]
      by (subst str_nat.simps) auto
  qed
qed

lemma str_int_no_space: "CHR '' '' \<notin> set (str_int i)"
  by (simp add: str_int_def str_nat_no_space)

lemma py_str_start_no_space: "assert_span_type sp \<Longrightarrow> CHR '' '' \<notin> set (py_str (start_i sp))"
  by (cases "start_i sp") (auto simp: assert_span_type_def str_int_no_space)

lemma py_str_end_no_space: "assert_span_type sp \<Longrightarrow> CHR '' '' \<notin> set (py_str (end_i sp))"
  by (cases "end_i sp") (auto simp: assert_span_type_def str_int_no_space)

lemma severity_no_space: "assert_span_type sp \<Longrightarrow> CHR '' '' \<notin> set (severity sp)"
  by (auto simp: assert_span_type_def)

lemma severity_not_critical: "assert_span_type sp \<Longrightarrow> severity sp \<noteq> ''critical''"
  by (auto simp: assert_span_type_def)

lemma emitted_tokens:
  assumes "emitted s2t d r"
  shows "tokens (start_indices r) = raw_tokens (\<lambda>sp. py_str (start_i sp)) ''-1'' (esa_spans d)"
    and "tokens (end_indices r) = raw_tokens (\<lambda>sp. py_str (end_i sp)) ''-1'' (esa_spans d)"
    and "tokens (error_types r) = raw_tokens severity ''no-error'' (esa_spans d)"
    and "list_all assert_span_type (esa_spans d)"
proof -
  from assms obtain reference sl tgl where
    a: "list_all assert_span_type (esa_spans d)" and
    r: "r = make_row d reference sl tgl (pad_no_error (add_spans init_acc (esa_spans d)))"
    by (auto simp: emitted_def split: option.splits list.splits)
  show "list_all assert_span_type (esa_spans d)" by (rule a)
  have sp: "CHR '' '' = CHR 0x20" by simp
  show "tokens (start_indices r) = raw_tokens (\<lambda>sp. py_str (start_i sp)) ''-1'' (esa_spans d)"
  proof (cases "esa_spans d = []")
    case True
    then show ?thesis
      by (simp add: r make_row_def pad_no_error_def add_spans_def init_acc_def tokens_def raw_tokens_def)
  next
    case False
    have "split_on CHR '' '' (join [CHR '' ''] (map (\<lambda>sp. py_str (start_i sp)) (esa_spans d)))
            = map (\<lambda>sp. py_str (start_i sp)) (esa_spans d)"
      using False a by (intro split_on_join) (auto simp: list_all_iff py_str_start_no_space)
    with False show ?thesis
      by (simp add: r make_row_def pad_no_error_def add_spans_def init_acc_def tokens_def raw_tokens_def)
  qed
  show "tokens (end_indices r) = raw_tokens (\<lambda>sp. py_str (end_i sp)) ''-1'' (esa_spans d)"
  proof (cases "esa_spans d = []")
    case True
    then show ?thesis
      by (simp add: r make_row_def pad_no_error_def add_spans_def init_acc_def tokens_def raw_tokens_def)
  next
    case False
    have "split_on CHR '' '' (join [CHR '' ''] (map (\<lambda>sp. py_str (end_i sp)) (esa_spans d)))
            = map (\<lambda>sp. py_str (end_i sp)) (esa_spans d)"
      using False a by (intro split_on_join) (auto simp: list_all_iff py_str_end_no_space)
    with False show ?thesis
      by (simp add: r make_row_def pad_no_error_def add_spans_def init_acc_def tokens_def raw_tokens_def)
  qed
  show "tokens (error_types r) = raw_tokens severity ''no-error'' (esa_spans d)"
  proof (cases "esa_spans d = []")
    case True
    then show ?thesis
      by (simp add: r make_row_def pad_no_error_def add_spans_def init_acc_def tokens_def raw_tokens_def)
  next
    case False
    have "split_on CHR '' '' (join [CHR '' ''] (map severity (esa_spans d)))
            = map severity (esa_spans d)"
      using False a by (intro split_on_join) (auto simp: list_all_iff severity_no_space)
    with False show ?thesis
      by (simp add: r make_row_def pad_no_error_def add_spans_def init_acc_def tokens_def raw_tokens_def)
  qed
qed
























lemma emitted_raw_join:
  assumes "emitted s2t d r"
  shows "start_indices r = join '' '' (raw_tokens (\<lambda>sp. py_str (start_i sp)) ''-1'' (esa_spans d))"
    and "end_indices r = join '' '' (raw_tokens (\<lambda>sp. py_str (end_i sp)) ''-1'' (esa_spans d))"
    and "error_types r = join '' '' (raw_tokens severity ''no-error'' (esa_spans d))"
  using assms
  by (auto simp: emitted_def make_row_def pad_no_error_def add_spans_def init_acc_def raw_tokens_def
           split: option.splits list.splits)

lemma list_all2_emitted_assert:
  "list_all2 (emitted_for w) sel rs \<Longrightarrow>
     \<forall>ld \<in> set sel. list_all assert_span_type (esa_spans (snd ld))"
proof (induction rule: list_all2_induct)
  case Nil
  then show ?case by simp
next
  case (Cons x xs y ys)
  from Cons(1) have "list_all assert_span_type (esa_spans (snd x))"
    unfolding emitted_for_def by (rule emitted_tokens(4))
  with Cons show ?case by simp
qed

lemma sum_stats_no_error:
  "sum_list (map (stats_for L ''no-error'') sel) =
     int (length (filter (\<lambda>ld. fst ld = L \<and> esa_spans (snd ld) = []) sel))"
  by (induction sel) (auto simp: stats_for_def datum_stats_def)

lemma count_bucket_missing:
  "list_all assert_span_type sps \<Longrightarrow>
     count_bucket ''missing'' sps = int (length (filter (\<lambda>sp. py_eq (start_i sp) (end_i sp)) sps))"
proof -
  assume a: "list_all assert_span_type sps"
  have "filter (\<lambda>sp. bucket sp = ''missing'') sps = filter (\<lambda>sp. py_eq (start_i sp) (end_i sp)) sps"
  proof (rule filter_cong[OF refl])
    fix sp assume "sp \<in> set sps"
    with a have "assert_span_type sp" by (simp add: list_all_iff)
    then have "severity sp \<noteq> ''missing''" by (auto simp: assert_span_type_def)
    then show "(bucket sp = ''missing'') = py_eq (start_i sp) (end_i sp)"
      by (simp add: bucket_def)
  qed
  then show ?thesis by (simp add: count_bucket_def)
qed

lemma count_bucket_minor:
  "count_bucket ''minor'' sps =
     int (length (filter (\<lambda>sp. \<not> py_eq (start_i sp) (end_i sp) \<and> severity sp = ''minor'') sps))"
proof -
  have "filter (\<lambda>sp. bucket sp = ''minor'') sps =
          filter (\<lambda>sp. \<not> py_eq (start_i sp) (end_i sp) \<and> severity sp = ''minor'') sps"
    by (rule filter_cong[OF refl]) (simp add: bucket_def)
  then show ?thesis by (simp add: count_bucket_def)
qed

lemma sum_stats_missing:
  "\<forall>ld \<in> set sel. list_all assert_span_type (esa_spans (snd ld)) \<Longrightarrow>
     sum_list (map (stats_for L ''missing'') sel) =
       count_selected_spans (\<lambda>sp. py_eq (start_i sp) (end_i sp)) L sel"
  by (induction sel)
     (auto simp: stats_for_def datum_stats_def count_selected_spans_def count_bucket_missing)

lemma sum_stats_minor:
  "sum_list (map (stats_for L ''minor'') sel) =
     count_selected_spans (\<lambda>sp. \<not> py_eq (start_i sp) (end_i sp) \<and> severity sp = ''minor'') L sel"
  by (induction sel)
     (auto simp: stats_for_def datum_stats_def count_selected_spans_def count_bucket_minor)

lemma correct_span_heap_mixed:
  assumes "is_int (start_i (hp ! a)) \<noteq> is_int (end_i (hp ! a))"
  shows "correct_span_heap hp a h =
           (Inl TypeError, hp @ [(hp ! a)\<lparr>severity := norm_sev (severity (hp ! a))\<rparr>])"
proof (cases "start_i (hp ! a)")
  case (PInt i)
  with assms obtain j where "end_i (hp ! a) = PStr j" by (cases "end_i (hp ! a)") auto
  with PInt show ?thesis
    by (cases "severity (hp ! a) = ''critical''")
       (simp_all add: correct_span_heap_def deepcopy_def heap_last Let_def norm_sev_def)
next
  case (PStr i)
  with assms obtain j where "end_i (hp ! a) = PInt j" by (cases "end_i (hp ! a)") auto
  with PStr show ?thesis
    by (cases "severity (hp ! a) = ''critical''")
       (simp_all add: correct_span_heap_def deepcopy_def heap_last Let_def norm_sev_def)
qed

lemma correct_span_heap_extends:
  "\<exists>x. snd (correct_span_heap hp a h) = hp @ [x]"
proof (cases "is_int (start_i (hp ! a)) = is_int (end_i (hp ! a))")
  case True
  then have "\<exists>r. correct_span (hp ! a) h = Inr r \<and>
               correct_span_heap hp a h = (Inr (length hp), hp @ [r])"
    by (cases "start_i (hp ! a)"; cases "end_i (hp ! a)")
       (simp_all add: correct_span_heap_ints correct_span_heap_strs)
  then show ?thesis by auto
next
  case False
  then show ?thesis by (simp add: correct_span_heap_mixed)
qed

lemma list_all2_rows:
  "list_all2 P sel rs \<Longrightarrow> r \<in> set rs \<Longrightarrow> \<exists>ld \<in> set sel. P ld r"
  by (induction rule: list_all2_induct) auto

section \<open>Claims about the span functions\<close>

text \<open>
  C2. \<open>is_invalid_span\<close> returns True exactly when a bound is a string other than
  \<open>''missing''\<close>, or an integer bound lies outside \<open>[0, length hypothesis]\<close>, or both
  bounds are integers with start above end, or the severity is not major, minor or
  critical; a span of severity \<open>''undecided''\<close> is therefore invalid.
\<close>

theorem is_invalid_span_classification:
  "is_invalid_span sp h = spec_invalid sp h \<and>
   (severity sp = ''undecided'' \<longrightarrow> is_invalid_span sp h)"
  by (cases "start_i sp"; cases "end_i sp")
     (auto simp: is_invalid_span_def spec_invalid_def bound_bad_string_def
        bound_out_of_range_def bounds_reversed_def Let_def)

theorem is_invalid_span_classification_witness:
  "is_invalid_span \<lparr>start_i = PInt 0, end_i = PInt 2, severity = ''undecided''\<rparr> ''abc'' \<and>
   spec_invalid \<lparr>start_i = PInt 0, end_i = PInt 2, severity = ''undecided''\<rparr> ''abc''"
proof -
  have sev: "severity \<lparr>start_i = PInt 0, end_i = PInt 2, severity = ''undecided''\<rparr>
               = ''undecided''"
    by simp
  from is_invalid_span_classification
    [of "\<lparr>start_i = PInt 0, end_i = PInt 2, severity = ''undecided''\<rparr>" "''abc''"] sev
  show ?thesis by blast
qed

text \<open>
  C3. When both bounds of the input span are integers, \<open>correct_span\<close> returns a span
  whose bounds are integers with \<open>0 \<le> start \<le> end \<le> length hypothesis\<close>, or whose bounds
  are both the sentinel \<open>''missing''\<close>.
\<close>

theorem correct_span_int_bounds:
  assumes "start_i sp = PInt s" "end_i sp = PInt e"
  shows "\<exists>r. correct_span sp h = Inr r \<and>
           ((\<exists>a b. start_i r = PInt a \<and> end_i r = PInt b \<and>
                   0 \<le> a \<and> a \<le> b \<and> b \<le> int (length h)) \<or>
            (start_i r = PStr ''missing'' \<and> end_i r = PStr ''missing''))"
proof -
  have "min x y \<le> max x y" for x y :: int by (simp add: min_def max_def)
  with assms show ?thesis by (simp add: correct_span_ints Let_def)
qed

theorem correct_span_int_bounds_witness:
  "\<exists>r. correct_span \<lparr>start_i = PInt 5, end_i = PInt 3, severity = ''critical''\<rparr>
          ''0123456789'' = Inr r \<and>
       ((\<exists>a b. start_i r = PInt a \<and> end_i r = PInt b \<and>
               0 \<le> a \<and> a \<le> b \<and> b \<le> int (length ''0123456789'')) \<or>
        (start_i r = PStr ''missing'' \<and> end_i r = PStr ''missing''))"
  using correct_span_int_bounds
    [of "\<lparr>start_i = PInt 5, end_i = PInt 3, severity = ''critical''\<rparr>" 5 3 "''0123456789''"]
  by simp

text \<open>
  C4, as the claim states it, fails: on a span with one integer bound and one string bound
  the comparison of line 39 raises TypeError.
\<close>

theorem correct_span_mixed_bounds_raises:
  "correct_span \<lparr>start_i = PInt 3, end_i = PStr ''missing'', severity = ''minor''\<rparr> ''hello''
     = Inl TypeError"
  by (simp add: correct_span_def)

text \<open>
  C4, amended. For every input span and every hypothesis, \<open>correct_span\<close> does not modify
  its input span: whether it returns or raises, every object the store held before the
  call, the input span among them, is unchanged, since all writes go to the deep copy of
  line 31. For every input span whose two bounds are both integers or both strings it
  returns a span, a new object, without raising.
\<close>

theorem correct_span_keeps_input_and_returns:
  assumes "a < length hp"
  shows "take (length hp) (snd (correct_span_heap hp a h)) = hp \<and>
         snd (correct_span_heap hp a h) ! a = hp ! a \<and>
         (is_int (start_i (hp ! a)) = is_int (end_i (hp ! a)) \<longrightarrow>
            (\<exists>r. correct_span (hp ! a) h = Inr r \<and>
                 correct_span_heap hp a h = (Inr (length hp), hp @ [r])))"
proof -
  from correct_span_heap_extends[of hp a h]
  obtain x where x: "snd (correct_span_heap hp a h) = hp @ [x]" by blast
  have 1: "take (length hp) (snd (correct_span_heap hp a h)) = hp" using x by simp
  have 2: "snd (correct_span_heap hp a h) ! a = hp ! a" using x assms by (simp add: nth_append)
  have 3: "is_int (start_i (hp ! a)) = is_int (end_i (hp ! a)) \<longrightarrow>
            (\<exists>r. correct_span (hp ! a) h = Inr r \<and>
                 correct_span_heap hp a h = (Inr (length hp), hp @ [r]))"
    by (cases "start_i (hp ! a)"; cases "end_i (hp ! a)")
       (simp_all add: correct_span_heap_ints correct_span_heap_strs)
  from 1 2 3 show ?thesis by blast
qed

theorem correct_span_keeps_input_and_returns_witness:
  "take 1 (snd (correct_span_heap
                  [\<lparr>start_i = PInt 5, end_i = PInt 3, severity = ''critical''\<rparr>] 0 ''0123456789''))
     = [\<lparr>start_i = PInt 5, end_i = PInt 3, severity = ''critical''\<rparr>] \<and>
   (\<exists>r. correct_span \<lparr>start_i = PInt 5, end_i = PInt 3, severity = ''critical''\<rparr>
           ''0123456789'' = Inr r \<and>
        correct_span_heap [\<lparr>start_i = PInt 5, end_i = PInt 3, severity = ''critical''\<rparr>] 0
           ''0123456789''
          = (Inr 1, [\<lparr>start_i = PInt 5, end_i = PInt 3, severity = ''critical''\<rparr>] @ [r]))"
  using correct_span_keeps_input_and_returns
    [of 0 "[\<lparr>start_i = PInt 5, end_i = PInt 3, severity = ''critical''\<rparr>]" "''0123456789''"]
  by simp

text \<open>
  C10. \<open>correct_span\<close> is idempotent where it is defined: when it returns a span \<open>r\<close>
  for \<open>s\<close> and \<open>h\<close>, it returns \<open>r\<close> again for \<open>r\<close> and \<open>h\<close>.
\<close>

theorem correct_span_idempotent:
  assumes "correct_span s h = Inr r"
  shows "correct_span r h = Inr r"
proof (cases "start_i s")
  case (PInt a)
  note sa = this
  show ?thesis
  proof (cases "end_i s")
    case (PInt b)
    define a' where "a' = min (max 0 a) (int (length h))"
    define b' where "b' = min (max 0 b) (int (length h))"
    have rng: "0 \<le> a'" "a' \<le> int (length h)" "0 \<le> b'" "b' \<le> int (length h)"
      by (simp_all add: a'_def b'_def)
    show ?thesis
    proof (cases "a' = b'")
      case True
      with assms sa PInt
      have "r = s\<lparr>start_i := PStr ''missing'', end_i := PStr ''missing'',
                   severity := norm_sev (severity s)\<rparr>"
        by (simp add: correct_span_ints Let_def a'_def b'_def)
      then show ?thesis by (intro correct_span_missing_fix) (simp_all add: norm_sev_idem)
    next
      case False
      with assms sa PInt
      have r: "r = s\<lparr>start_i := PInt (min a' b'), end_i := PInt (max a' b'),
                      severity := norm_sev (severity s)\<rparr>"
        by (simp add: correct_span_ints Let_def a'_def b'_def)
      show ?thesis
      proof (rule correct_span_ints_fix)
        show "start_i r = PInt (min a' b')" "end_i r = PInt (max a' b')" using r by simp_all
        show "0 \<le> min a' b'" using rng by simp
        show "min a' b' < max a' b'" using False by (simp add: min_def max_def)
        show "max a' b' \<le> int (length h)" using rng by simp
        show "norm_sev (severity r) = severity r" using r by (simp add: norm_sev_idem)
      qed
    qed
  next
    case (PStr b)
    with sa assms show ?thesis by (simp add: correct_span_mixed)
  qed
next
  case (PStr a)
  note sa = this
  show ?thesis
  proof (cases "end_i s")
    case (PInt b)
    with sa assms show ?thesis by (simp add: correct_span_mixed)
  next
    case (PStr b)
    show ?thesis
    proof (cases "a = b")
      case True
      with assms sa PStr
      have "r = s\<lparr>start_i := PStr ''missing'', end_i := PStr ''missing'',
                   severity := norm_sev (severity s)\<rparr>"
        by (simp add: correct_span_strs)
      then show ?thesis by (intro correct_span_missing_fix) (simp_all add: norm_sev_idem)
    next
      case False
      with assms sa PStr
      have r: "r = s\<lparr>start_i := PStr (min a b), end_i := PStr (max a b),
                      severity := norm_sev (severity s)\<rparr>"
        by (simp add: correct_span_strs)
      show ?thesis
      proof (rule correct_span_strs_fix)
        show "start_i r = PStr (min a b)" "end_i r = PStr (max a b)" using r by simp_all
        show "min a b < max a b" using False by (auto simp: min_def max_def)
        show "norm_sev (severity r) = severity r" using r by (simp add: norm_sev_idem)
      qed
    qed
  qed
qed

theorem correct_span_idempotent_witness:
  "correct_span \<lparr>start_i = PInt 5, end_i = PInt 3, severity = ''critical''\<rparr> ''0123456789''
     = Inr \<lparr>start_i = PInt 3, end_i = PInt 5, severity = ''major''\<rparr> \<and>
   correct_span \<lparr>start_i = PInt 3, end_i = PInt 5, severity = ''major''\<rparr> ''0123456789''
     = Inr \<lparr>start_i = PInt 3, end_i = PInt 5, severity = ''major''\<rparr>"
proof -
  have h: "correct_span \<lparr>start_i = PInt 5, end_i = PInt 3, severity = ''critical''\<rparr>
             ''0123456789''
           = Inr \<lparr>start_i = PInt 3, end_i = PInt 5, severity = ''major''\<rparr>"
    by (simp add: correct_span_def)
  from correct_span_idempotent [OF h] h show ?thesis by simp
qed



section \<open>Claims about the pipeline\<close>

lemmas eval_main = main_def add_datum_def example_record_def example_refs_def signature_def
  langs_to_wmt24pp_code_def init_acc_def emit_def pad_no_error_def make_row_def
  update_statistics_def add_stat_def incr_def Let_def assert_span_type_def is_invalid_span_def



text \<open>
  C5. \<open>main\<close> never calls \<open>correct_span\<close>: for every row of the table, in order, the
  three joined fields are the space-joined \<open>str\<close> of the raw \<open>start_i\<close>, of the raw
  \<open>end_i\<close>, and the raw \<open>severity\<close> of the spans of the selected record, token by token
  (the sentinels when the record has no span); nothing is clamped, swapped, collapsed to
  \<open>''missing''\<close> or rewritten from critical to major.
\<close>

theorem main_rows_carry_raw_spans:
  assumes "main flt w input = Inr out"
  shows "\<exists>lc ltd. ingest input (\<lambda>k. 0) [] = Inr (lc, ltd) \<and>
           list_all2 (\<lambda>ld r. carries_raw_spans (snd ld) r) (select_all flt w ltd) (data out)"
proof -
  from main_effect[OF assms] obtain lc ltd where
    i: "ingest input (\<lambda>k. 0) [] = Inr (lc, ltd)" and
    e: "list_all2 (emitted_for w) (select_all flt w ltd) (data out)" by blast
  have "list_all2 (\<lambda>ld r. carries_raw_spans (snd ld) r) (select_all flt w ltd) (data out)"
    using e
  proof (rule list_all2_mono)
    fix ld r assume "emitted_for w ld r"
    then have em: "emitted (src_to_tgt_of w (fst ld)) (snd ld) r" by (simp add: emitted_for_def)
    from emitted_raw_join[OF em] emitted_tokens(1-3)[OF em]
    show "carries_raw_spans (snd ld) r" unfolding carries_raw_spans_def by blast
  qed
  with i show ?thesis by blast
qed

theorem main_rows_carry_raw_spans_witness:
  "\<exists>out. main False example_refs
            [example_record ''hello'' ''abc''
               [\<lparr>start_i = PInt 7, end_i = PInt 2, severity = ''major''\<rparr>]] = Inr out \<and>
         (map start_indices (data out) = [''7''] \<and> map end_indices (data out) = [''2''] \<and>
          map error_types (data out) = [''major'']) \<and>
         (\<exists>lc ltd. ingest
            [example_record ''hello'' ''abc''
               [\<lparr>start_i = PInt 7, end_i = PInt 2, severity = ''major''\<rparr>]] (\<lambda>k. 0) []
              = Inr (lc, ltd) \<and>
           list_all2 (\<lambda>ld r. carries_raw_spans (snd ld) r)
             (select_all False example_refs ltd) (data out))"
proof -
  let ?input = "[example_record ''hello'' ''abc''
               [\<lparr>start_i = PInt 7, end_i = PInt 2, severity = ''major''\<rparr>]]"
  have ev: "case main False example_refs ?input of
          Inl e \<Rightarrow> False
        | Inr out \<Rightarrow> map start_indices (data out) = [''7''] \<and>
                     map end_indices (data out) = [''2''] \<and>
                     map error_types (data out) = [''major'']"
    by (simp add: eval_main str_int_def str_nat.simps digit_char_def)
  show ?thesis
  proof (cases "main False example_refs ?input")
    case (Inl e)
    with ev show ?thesis by (simp only: sum.case)
  next
    case (Inr out)
    with ev have v: "map start_indices (data out) = [''7''] \<and>
                     map end_indices (data out) = [''2''] \<and>
                     map error_types (data out) = [''major'']" by (simp only: sum.case)
    note c = main_rows_carry_raw_spans[OF Inr]
    show ?thesis by (rule exI[of _ out]) (rule conjI[OF Inr conjI[OF v c]])
  qed
qed

text \<open>
  C6. In every row of the table the three joined fields have the same number of tokens.
  A selected record without spans gives the row whose three fields are \<open>''-1''\<close>,
  \<open>''-1''\<close> and \<open>''no-error''\<close>, and the no-error counter of a language pair ends as the
  number of selected records of that pair without spans.
\<close>

theorem main_rows_aligned_and_no_error:
  assumes "main flt w input = Inr out"
  shows "(\<forall>r \<in> set (data out). aligned r) \<and>
         (\<exists>lc ltd. ingest input (\<lambda>k. 0) [] = Inr (lc, ltd) \<and>
            list_all2 (\<lambda>ld r. esa_spans (snd ld) = [] \<longrightarrow> is_no_error_row r)
              (select_all flt w ltd) (data out) \<and>
            (\<forall>L. langs_to_statistics out L ''no-error'' =
                   int (length (filter (\<lambda>ld. fst ld = L \<and> esa_spans (snd ld) = [])
                                  (select_all flt w ltd)))))"
proof -
  from main_effect[OF assms] obtain lc ltd where
    i: "ingest input (\<lambda>k. 0) [] = Inr (lc, ltd)" and
    e: "list_all2 (emitted_for w) (select_all flt w ltd) (data out)" and
    s: "\<forall>L k. langs_to_statistics out L k =
               sum_list (map (stats_for L k) (select_all flt w ltd))" by blast
  have a: "aligned r" if "r \<in> set (data out)" for r
  proof -
    from list_all2_rows[OF e that] obtain ld where "emitted_for w ld r" by blast
    then have em: "emitted (src_to_tgt_of w (fst ld)) (snd ld) r" by (simp add: emitted_for_def)
    from emitted_tokens(1-3)[OF em] show ?thesis by (simp add: raw_tokens_def aligned_def)
  qed
  have b: "list_all2 (\<lambda>ld r. esa_spans (snd ld) = [] \<longrightarrow> is_no_error_row r)
              (select_all flt w ltd) (data out)"
    using e
  proof (rule list_all2_mono)
    fix ld r assume "emitted_for w ld r"
    then have em: "emitted (src_to_tgt_of w (fst ld)) (snd ld) r" by (simp add: emitted_for_def)
    from emitted_raw_join[OF em]
    show "esa_spans (snd ld) = [] \<longrightarrow> is_no_error_row r"
      by (simp add: raw_tokens_def is_no_error_row_def)
  qed
  have c: "\<forall>L. langs_to_statistics out L ''no-error'' =
                   int (length (filter (\<lambda>ld. fst ld = L \<and> esa_spans (snd ld) = [])
                                  (select_all flt w ltd)))"
    using s by (simp add: sum_stats_no_error)
  from a b c i show ?thesis by blast
qed

theorem main_rows_aligned_and_no_error_witness:
  "\<exists>out. main True example_refs [example_record ''hello'' ''abc'' []] = Inr out \<and>
         (map start_indices (data out) = [''-1''] \<and> map end_indices (data out) = [''-1''] \<and>
          map error_types (data out) = [''no-error''] \<and>
          langs_to_statistics out ''en-cs'' ''no-error'' = 1) \<and>
         ((\<forall>r \<in> set (data out). aligned r) \<and>
          (\<exists>lc ltd. ingest [example_record ''hello'' ''abc'' []] (\<lambda>k. 0) [] = Inr (lc, ltd) \<and>
            list_all2 (\<lambda>ld r. esa_spans (snd ld) = [] \<longrightarrow> is_no_error_row r)
              (select_all True example_refs ltd) (data out) \<and>
            (\<forall>L. langs_to_statistics out L ''no-error'' =
                   int (length (filter (\<lambda>ld. fst ld = L \<and> esa_spans (snd ld) = [])
                                  (select_all True example_refs ltd))))))"
proof -
  let ?input = "[example_record ''hello'' ''abc'' []]"
  have ev: "case main True example_refs ?input of
          Inl e \<Rightarrow> False
        | Inr out \<Rightarrow> map start_indices (data out) = [''-1''] \<and>
                     map end_indices (data out) = [''-1''] \<and>
                     map error_types (data out) = [''no-error''] \<and>
                     langs_to_statistics out ''en-cs'' ''no-error'' = 1"
    by (simp add: eval_main)
  show ?thesis
  proof (cases "main True example_refs ?input")
    case (Inl e)
    with ev show ?thesis by (simp only: sum.case)
  next
    case (Inr out)
    with ev have v: "map start_indices (data out) = [''-1''] \<and>
                     map end_indices (data out) = [''-1''] \<and>
                     map error_types (data out) = [''no-error''] \<and>
                     langs_to_statistics out ''en-cs'' ''no-error'' = 1"
      by (simp only: sum.case)
    note c = main_rows_aligned_and_no_error[OF Inr]
    show ?thesis by (rule exI[of _ out]) (rule conjI[OF Inr conjI[OF v c]])
  qed
qed

text \<open>
  C7, as the claim states it, fails: on a critical span with a string bound and an
  integer bound \<open>correct_span\<close> raises TypeError at line 39 and returns no span.
\<close>

theorem correct_span_critical_mixed_raises:
  "correct_span \<lparr>start_i = PStr ''missing'', end_i = PInt 2, severity = ''critical''\<rparr> ''hello''
     = Inl TypeError"
  by (simp add: correct_span_def)

text \<open>
  C7, amended. For every span of severity critical whose two bounds are both integers or
  both strings, and every hypothesis, \<open>correct_span\<close> returns a span of severity major;
  and whenever \<open>main\<close> returns, no row of the table has \<open>''critical''\<close> among the tokens
  of its error types (the assertion of line 27 admits major, minor and undecided only).
\<close>

theorem critical_becomes_major_and_never_in_rows:
  "(severity sp = ''critical'' \<and> is_int (start_i sp) = is_int (end_i sp) \<longrightarrow>
      (\<exists>r. correct_span sp h = Inr r \<and> severity r = ''major'')) \<and>
   (main flt w input = Inr out \<longrightarrow>
      (\<forall>r \<in> set (data out). ''critical'' \<notin> set (tokens (error_types r))))"
proof (intro conjI impI)
  assume a: "severity sp = ''critical'' \<and> is_int (start_i sp) = is_int (end_i sp)"
  then show "\<exists>r. correct_span sp h = Inr r \<and> severity r = ''major''"
    by (cases "start_i sp"; cases "end_i sp")
       (simp_all add: correct_span_ints correct_span_strs Let_def norm_sev_def)
next
  assume m: "main flt w input = Inr out"
  from main_effect[OF m] obtain lc ltd where
    e: "list_all2 (emitted_for w) (select_all flt w ltd) (data out)" by blast
  show "\<forall>r \<in> set (data out). ''critical'' \<notin> set (tokens (error_types r))"
  proof
    fix r assume "r \<in> set (data out)"
    from list_all2_rows[OF e this] obtain ld where "emitted_for w ld r" by blast
    then have em: "emitted (src_to_tgt_of w (fst ld)) (snd ld) r" by (simp add: emitted_for_def)
    from emitted_tokens(3,4)[OF em] have
      t: "tokens (error_types r) = raw_tokens severity ''no-error'' (esa_spans (snd ld))" and
      a: "list_all assert_span_type (esa_spans (snd ld))" by simp_all
    show "''critical'' \<notin> set (tokens (error_types r))"
    proof
      assume "''critical'' \<in> set (tokens (error_types r))"
      with t have "''critical'' \<in> severity ` set (esa_spans (snd ld))"
        by (simp add: raw_tokens_def split: if_splits)
      then obtain x where "x \<in> set (esa_spans (snd ld))" "severity x = ''critical''" by auto
      with a severity_not_critical[of x] show False by (simp add: list_all_iff)
    qed
  qed
qed

theorem critical_becomes_major_and_never_in_rows_witness:
  "(\<exists>r. correct_span \<lparr>start_i = PInt 5, end_i = PInt 3, severity = ''critical''\<rparr>
           ''0123456789'' = Inr r \<and> severity r = ''major'') \<and>
   (\<exists>out. main False example_refs
             [example_record ''hello'' ''abc''
                [\<lparr>start_i = PInt 0, end_i = PInt 2, severity = ''major''\<rparr>]] = Inr out \<and>
          map error_types (data out) = [''major''] \<and>
          (\<forall>r \<in> set (data out). ''critical'' \<notin> set (tokens (error_types r))))"
proof -
  let ?sp = "\<lparr>start_i = PInt 5, end_i = PInt 3, severity = ''critical''\<rparr>"
  let ?input = "[example_record ''hello'' ''abc''
                [\<lparr>start_i = PInt 0, end_i = PInt 2, severity = ''major''\<rparr>]]"
  have p: "severity ?sp = ''critical'' \<and> is_int (start_i ?sp) = is_int (end_i ?sp)" by simp
  have ev: "case main False example_refs ?input of
          Inl e \<Rightarrow> False | Inr out \<Rightarrow> map error_types (data out) = [''major'']"
    by (simp add: eval_main)
  show ?thesis
  proof (cases "main False example_refs ?input")
    case (Inl e)
    with ev show ?thesis by (simp only: sum.case)
  next
    case (Inr out)
    with ev have v: "map error_types (data out) = [''major'']" by (simp only: sum.case)
    note t = critical_becomes_major_and_never_in_rows
               [of ?sp "''0123456789''" False example_refs ?input out]
    have 1: "\<exists>r. correct_span ?sp ''0123456789'' = Inr r \<and> severity r = ''major''"
      by (rule mp[OF t[THEN conjunct1] p])
    have 2: "\<forall>r \<in> set (data out). ''critical'' \<notin> set (tokens (error_types r))"
      by (rule mp[OF t[THEN conjunct2] Inr])
    have "\<exists>out. main False example_refs ?input = Inr out \<and>
          map error_types (data out) = [''major''] \<and>
          (\<forall>r \<in> set (data out). ''critical'' \<notin> set (tokens (error_types r)))"
      by (rule exI[of _ out]) (rule conjI[OF Inr conjI[OF v 2]])
    with 1 show ?thesis by (rule conjI)
  qed
qed

text \<open>
  C8. For every hypothesis, \<open>correct_span\<close> turns the span with bounds 4 and 4 and
  severity minor into the span with both bounds \<open>''missing''\<close> and severity minor. In the
  pipeline a span whose \<open>start_i\<close> equals its \<open>end_i\<close> is counted in the missing bucket
  and not under its severity: when \<open>main\<close> returns, the missing counter of a language
  pair is the number of such spans in its selected records, and the minor counter is the
  number of their other spans of severity minor.
\<close>

theorem zero_length_span_counts_as_missing:
  "correct_span \<lparr>start_i = PInt 4, end_i = PInt 4, severity = ''minor''\<rparr> h =
     Inr \<lparr>start_i = PStr ''missing'', end_i = PStr ''missing'', severity = ''minor''\<rparr> \<and>
   (main flt w input = Inr out \<longrightarrow>
      (\<exists>lc ltd. ingest input (\<lambda>k. 0) [] = Inr (lc, ltd) \<and>
         (\<forall>L. langs_to_statistics out L ''missing'' =
                 count_selected_spans (\<lambda>sp. py_eq (start_i sp) (end_i sp)) L
                   (select_all flt w ltd) \<and>
               langs_to_statistics out L ''minor'' =
                 count_selected_spans
                   (\<lambda>sp. \<not> py_eq (start_i sp) (end_i sp) \<and> severity sp = ''minor'') L
                   (select_all flt w ltd))))"
proof (intro conjI impI)
  show "correct_span \<lparr>start_i = PInt 4, end_i = PInt 4, severity = ''minor''\<rparr> h =
     Inr \<lparr>start_i = PStr ''missing'', end_i = PStr ''missing'', severity = ''minor''\<rparr>"
    by (simp add: correct_span_ints Let_def norm_sev_def)
next
  assume m: "main flt w input = Inr out"
  from main_effect[OF m] obtain lc ltd where
    i: "ingest input (\<lambda>k. 0) [] = Inr (lc, ltd)" and
    e: "list_all2 (emitted_for w) (select_all flt w ltd) (data out)" and
    s: "\<forall>L k. langs_to_statistics out L k =
               sum_list (map (stats_for L k) (select_all flt w ltd))" by blast
  from list_all2_emitted_assert[OF e] s
  have "\<forall>L. langs_to_statistics out L ''missing'' =
                 count_selected_spans (\<lambda>sp. py_eq (start_i sp) (end_i sp)) L
                   (select_all flt w ltd) \<and>
               langs_to_statistics out L ''minor'' =
                 count_selected_spans
                   (\<lambda>sp. \<not> py_eq (start_i sp) (end_i sp) \<and> severity sp = ''minor'') L
                   (select_all flt w ltd)"
    by (simp add: sum_stats_missing sum_stats_minor)
  with i show "\<exists>lc ltd. ingest input (\<lambda>k. 0) [] = Inr (lc, ltd) \<and>
         (\<forall>L. langs_to_statistics out L ''missing'' =
                 count_selected_spans (\<lambda>sp. py_eq (start_i sp) (end_i sp)) L
                   (select_all flt w ltd) \<and>
               langs_to_statistics out L ''minor'' =
                 count_selected_spans
                   (\<lambda>sp. \<not> py_eq (start_i sp) (end_i sp) \<and> severity sp = ''minor'') L
                   (select_all flt w ltd))"
    by blast
qed

theorem zero_length_span_counts_as_missing_witness:
  "\<exists>out. main False example_refs
            [example_record ''hello'' ''abc''
               [\<lparr>start_i = PInt 1, end_i = PInt 1, severity = ''minor''\<rparr>]] = Inr out \<and>
         (langs_to_statistics out ''en-cs'' ''missing'' = 1 \<and>
          langs_to_statistics out ''en-cs'' ''minor'' = 0 \<and>
          map error_types (data out) = [''minor'']) \<and>
         (\<exists>lc ltd. ingest
            [example_record ''hello'' ''abc''
               [\<lparr>start_i = PInt 1, end_i = PInt 1, severity = ''minor''\<rparr>]] (\<lambda>k. 0) []
              = Inr (lc, ltd) \<and>
           (\<forall>L. langs_to_statistics out L ''missing'' =
                 count_selected_spans (\<lambda>sp. py_eq (start_i sp) (end_i sp)) L
                   (select_all False example_refs ltd) \<and>
               langs_to_statistics out L ''minor'' =
                 count_selected_spans
                   (\<lambda>sp. \<not> py_eq (start_i sp) (end_i sp) \<and> severity sp = ''minor'') L
                   (select_all False example_refs ltd)))"
proof -
  let ?input = "[example_record ''hello'' ''abc''
               [\<lparr>start_i = PInt 1, end_i = PInt 1, severity = ''minor''\<rparr>]]"
  have ev: "case main False example_refs ?input of
          Inl e \<Rightarrow> False
        | Inr out \<Rightarrow> langs_to_statistics out ''en-cs'' ''missing'' = 1 \<and>
                     langs_to_statistics out ''en-cs'' ''minor'' = 0 \<and>
                     map error_types (data out) = [''minor'']"
    by (simp add: eval_main)
  show ?thesis
  proof (cases "main False example_refs ?input")
    case (Inl e)
    with ev show ?thesis by (simp only: sum.case)
  next
    case (Inr out)
    with ev have v: "langs_to_statistics out ''en-cs'' ''missing'' = 1 \<and>
                     langs_to_statistics out ''en-cs'' ''minor'' = 0 \<and>
                     map error_types (data out) = [''minor'']" by (simp only: sum.case)
    note t = zero_length_span_counts_as_missing[of "''abc''" False example_refs ?input out]
    have c: "\<exists>lc ltd. ingest ?input (\<lambda>k. 0) [] = Inr (lc, ltd) \<and>
           (\<forall>L. langs_to_statistics out L ''missing'' =
                 count_selected_spans (\<lambda>sp. py_eq (start_i sp) (end_i sp)) L
                   (select_all False example_refs ltd) \<and>
               langs_to_statistics out L ''minor'' =
                 count_selected_spans
                   (\<lambda>sp. \<not> py_eq (start_i sp) (end_i sp) \<and> severity sp = ''minor'') L
                   (select_all False example_refs ltd))"
      by (rule mp[OF t[THEN conjunct2] Inr])
    show ?thesis by (rule exI[of _ out]) (rule conjI[OF Inr conjI[OF v c]])
  qed
qed




end
